theory Spec2Isabelle
  imports Main "HOL-Library.Sublist" "HOL-Library.AList"
begin

section \<open>Strings\<close>

text \<open>
  A Python \<open>str\<close> is modelled as a \<open>string\<close>, one \<open>char\<close> per code point; a \<open>char\<close> has
  eight bits, so the strings of the model are those of code points 0 to 255. On them
  \<open>str.lower\<close> works character by character: it adds 32 to \<open>A\<close>..\<open>Z\<close> (65 to 90) and to the
  upper-case letters 192 to 214 and 216 to 222, and leaves every other code point alone.
  The whitespace of \<open>str.isspace\<close>, which \<open>str.strip\<close> removes, is 9 to 13, 28 to 32,
  133 and 160.
\<close>

definition lower_char :: "char \<Rightarrow> char" where
  "lower_char c =
     (let n = (of_char c :: nat) in
      if (65 \<le> n \<and> n \<le> 90) \<or> (192 \<le> n \<and> n \<le> 214) \<or> (216 \<le> n \<and> n \<le> 222)
      then char_of (n + 32) else c)"

definition lower :: "string \<Rightarrow> string" where
  "lower s = map lower_char s"

definition isspace :: "char \<Rightarrow> bool" where
  "isspace c =
     (let n = (of_char c :: nat) in
      (9 \<le> n \<and> n \<le> 13) \<or> (28 \<le> n \<and> n \<le> 32) \<or> n = 133 \<or> n = 160)"

definition lstrip :: "string \<Rightarrow> string" where
  "lstrip s = dropWhile isspace s"

definition rstrip :: "string \<Rightarrow> string" where
  "rstrip s = rev (dropWhile isspace (rev s))"

definition strip :: "string \<Rightarrow> string" where
  "strip s = rstrip (lstrip s)"

text \<open>\<open>a in b\<close> on two strings: \<open>a\<close> occurs in \<open>b\<close> as a contiguous run of characters.\<close>

fun startswith :: "string \<Rightarrow> string \<Rightarrow> bool" where
  "startswith b [] = True"
| "startswith [] (x # xs) = False"
| "startswith (y # ys) (x # xs) = (x = y \<and> startswith ys xs)"

fun str_in :: "string \<Rightarrow> string \<Rightarrow> bool" where
  "str_in a [] = (a = [])"
| "str_in a (y # ys) = (startswith (y # ys) a \<or> str_in a ys)"

text \<open>\<open>s.split(",")\<close>: the segments between the commas, always at least one.\<close>

fun split_comma :: "string \<Rightarrow> string list" where
  "split_comma [] = [[]]"
| "split_comma (c # cs) =
     (if c = CHR '','' then [] # split_comma cs
      else (case split_comma cs of
              [] \<Rightarrow> [[c]]
            | w # ws \<Rightarrow> (c # w) # ws))"

section \<open>Errors\<close>

text \<open>
  \<open>ValueError\<close> and \<open>HTTPException status detail\<close> are raised by \<open>main.py\<close> itself.
  \<open>NotAuthenticated\<close> is the rejection that the framework's \<open>APIKeyHeader\<close> dependency
  raises on its own when it is declared with \<open>auto_error=True\<close> (detail
  \<open>Not authenticated\<close>); \<open>RequestValidationError\<close> is the framework's answer (status 422)
  to a parameter that violates its declared constraint. \<open>KeyError\<close> is a failed
  dictionary subscript.
\<close>

datatype error =
    ValueError string
  | HTTPException nat string
  | NotAuthenticated
  | RequestValidationError
  | KeyError

section \<open>Access gate\<close>

text \<open>
  Module start: \<open>os.getenv("API_KEYS")\<close> is \<open>None\<close> when the variable is absent. The
  guard \<open>if not api_keys_env\<close> is true for \<open>None\<close> and for the empty string.
\<close>

definition load_api_keys :: "string option \<Rightarrow> error + string set" where
  "load_api_keys api_keys_env =
     (case api_keys_env of
        None \<Rightarrow> Inl (ValueError
          ''API_KEYS environment variable is not set. Please configure it in your .env file or environment.'')
      | Some env \<Rightarrow>
          if env = [] then Inl (ValueError
          ''API_KEYS environment variable is not set. Please configure it in your .env file or environment.'')
          else Inr (set (map strip (filter (\<lambda>key. strip key \<noteq> []) (split_comma env)))))"

text \<open>
  \<open>api_key_header = APIKeyHeader(name="X-API-Key", auto_error=True)\<close>: the dependency reads
  the header; when the header is absent or empty and \<open>auto_error\<close> is set it raises by
  itself, otherwise it hands the value on.
\<close>

definition api_key_header :: "string option \<Rightarrow> error + string" where
  "api_key_header header =
     (case header of
        None \<Rightarrow> Inl NotAuthenticated
      | Some api_key \<Rightarrow> if api_key = [] then Inl NotAuthenticated else Inr api_key)"

definition unauthorized_detail :: string where
  "unauthorized_detail =
     ''Invalid or missing API Key. Please provide a valid API key in the X-API-Key header.''"

definition verify_api_key :: "string set \<Rightarrow> string \<Rightarrow> error + string" where
  "verify_api_key VALID_API_KEYS api_key =
     (if api_key \<in> VALID_API_KEYS then Inr api_key
      else Inl (HTTPException 401 unauthorized_detail))"

text \<open>\<open>Security(verify_api_key)\<close>: the header dependency first, then the membership check.\<close>

definition authenticate :: "string set \<Rightarrow> string option \<Rightarrow> error + string" where
  "authenticate VALID_API_KEYS header =
     (case api_key_header header of
        Inl e \<Rightarrow> Inl e
      | Inr api_key \<Rightarrow> verify_api_key VALID_API_KEYS api_key)"

section \<open>Position resolver\<close>

text \<open>
  \<open>job_skills\<close> and \<open>common_positions\<close> come from the module \<open>skills_data\<close>; they are
  parameters here. A dictionary is an association list in insertion order, its keys
  pairwise different: \<open>k in d\<close> is \<open>map_of d k \<noteq> None\<close>, \<open>d[k]\<close> reads \<open>map_of d k\<close>, and
  \<open>d.items()\<close> is the list itself.

  The response models keep their field names, so the handlers' locals that share a name
  with a field are written shorter: \<open>pos\<close> for \<open>position\<close>, \<open>sk\<close> for \<open>skills\<close>, and
  \<open>categories_init\<close> for the literal that \<open>categories\<close> starts from.
\<close>

record SkillsResponse =
  position :: string
  skills :: "string list"
  skills_count :: nat

definition not_found_detail :: "string \<Rightarrow> string" where
  "not_found_detail pos =
     ''No skills found for position: '' @ pos @ ''. Try /api/positions to see available positions.''"

text \<open>The loop \<open>for key, skills in job_skills.items()\<close> with its early return.\<close>

fun partial_match :: "string \<Rightarrow> (string \<times> string list) list \<Rightarrow> string list option" where
  "partial_match normalized_position [] = None"
| "partial_match normalized_position ((key, sk) # items) =
     (if str_in normalized_position key \<or> str_in key normalized_position then Some sk
      else partial_match normalized_position items)"

definition get_skills_for_position ::
  "(string \<times> string list) list \<Rightarrow> string \<Rightarrow> error + SkillsResponse" where
  "get_skills_for_position job_skills pos =
     (let normalized_position = strip (lower pos) in
      case map_of job_skills normalized_position of
        Some sk \<Rightarrow> Inr \<lparr>position = pos, skills = sk, skills_count = length sk\<rparr>
      | None \<Rightarrow>
          (case partial_match normalized_position job_skills of
             Some sk \<Rightarrow> Inr \<lparr>position = pos, skills = sk, skills_count = length sk\<rparr>
           | None \<Rightarrow> Inl (HTTPException 404 (not_found_detail pos))))"

section \<open>Suggestion engine\<close>

record PositionSuggestionsResponse =
  suggestions :: "string list"
  query :: string

text \<open>The handler body: the blank check, then the comprehension sliced with \<open>[:10]\<close>.\<close>

definition get_position_suggestions ::
  "string list \<Rightarrow> string \<Rightarrow> PositionSuggestionsResponse" where
  "get_position_suggestions common_positions q =
     (if strip q = [] then \<lparr>suggestions = [], query = q\<rparr>
      else
        let lower_query = lower q in
        \<lparr>suggestions = take 10 (filter (\<lambda>p. str_in lower_query (lower p)) common_positions),
         query = q\<rparr>)"

text \<open>
  The route \<open>/api/suggestions\<close>: the parameter is declared \<open>Query(..., min_length=1)\<close>, so
  the framework answers a shorter \<open>q\<close> with a validation error and the handler does not run.
\<close>

definition suggestions_endpoint ::
  "string list \<Rightarrow> string \<Rightarrow> error + PositionSuggestionsResponse" where
  "suggestions_endpoint common_positions q =
     (if length q < 1 then Inl RequestValidationError
      else Inr (get_position_suggestions common_positions q))"

text \<open>
  What the claim about the suggestion engine says it computes: the order-preserving
  filter of the catalog, truncated to its first 10 matches, for every query.
\<close>

definition filter_truncated :: "string list \<Rightarrow> string \<Rightarrow> string list" where
  "filter_truncated common_positions q =
     take 10 (filter (\<lambda>p. str_in (lower q) (lower p)) common_positions)"

section \<open>Category index: the combined view\<close>

type_synonym skills_dict = "(string \<times> string list) list"

type_synonym categories_dict = "(string \<times> skills_dict) list"

record AllJobsResponse =
  categories :: categories_dict
  total_positions :: nat

definition categories_init :: categories_dict where
  "categories_init =
     [(''Software Development'', []),
      (''Data & AI'', []),
      (''DevOps & Cloud'', []),
      (''Design'', []),
      (''Management'', []),
      (''Quality Assurance'', []),
      (''Security'', []),
      (''Business'', []),
      (''Content & Marketing'', [])]"

definition category_mapping :: "(string \<times> string list) list" where
  "category_mapping =
     [(''Software Development'',
         [''software developer'', ''software engineer'', ''full stack developer'',
          ''frontend developer'', ''backend developer'', ''mobile developer'']),
      (''Data & AI'',
         [''data scientist'', ''data analyst'', ''data engineer'',
          ''machine learning engineer'', ''ai engineer'']),
      (''DevOps & Cloud'',
         [''devops engineer'', ''cloud engineer'', ''system administrator'',
          ''network engineer'', ''database administrator'']),
      (''Design'',
         [''ui/ux designer'', ''graphic designer'', ''web designer'']),
      (''Management'',
         [''product manager'', ''project manager'', ''scrum master'']),
      (''Quality Assurance'',
         [''quality assurance engineer'', ''qa tester'', ''qa engineer'']),
      (''Security'',
         [''security engineer'']),
      (''Business'',
         [''business analyst'', ''marketing manager'', ''sales manager'',
          ''customer success manager'', ''hr manager'', ''financial analyst'', ''accountant'']),
      (''Content & Marketing'',
         [''technical writer'', ''content writer'', ''seo specialist'',
          ''digital marketing specialist''])]"

text \<open>
  The body of the inner loop. \<open>d[k] = v\<close> on a dictionary is \<open>AList.update k v d\<close>: the
  value is replaced in place when the key is there, and appended otherwise. The subscript
  \<open>categories[category]\<close> raises \<open>KeyError\<close> when the category is missing.
\<close>

definition add_position ::
  "skills_dict \<Rightarrow> string \<Rightarrow> categories_dict \<Rightarrow> string \<Rightarrow> error + categories_dict" where
  "add_position job_skills category cats pos =
     (case map_of job_skills pos of
        None \<Rightarrow> Inr cats
      | Some sk \<Rightarrow>
          (case map_of cats category of
             None \<Rightarrow> Inl KeyError
           | Some inner \<Rightarrow> Inr (AList.update category (AList.update pos sk inner) cats)))"

fun positions_loop ::
  "skills_dict \<Rightarrow> string \<Rightarrow> string list \<Rightarrow> categories_dict \<Rightarrow> error + categories_dict" where
  "positions_loop job_skills category [] cats = Inr cats"
| "positions_loop job_skills category (pos # rest) cats =
     (case add_position job_skills category cats pos of
        Inl e \<Rightarrow> Inl e
      | Inr cats' \<Rightarrow> positions_loop job_skills category rest cats')"

fun categories_loop ::
  "skills_dict \<Rightarrow> (string \<times> string list) list \<Rightarrow> categories_dict \<Rightarrow> error + categories_dict" where
  "categories_loop job_skills [] cats = Inr cats"
| "categories_loop job_skills ((category, positions) # rest) cats =
     (case positions_loop job_skills category positions cats of
        Inl e \<Rightarrow> Inl e
      | Inr cats' \<Rightarrow> categories_loop job_skills rest cats')"

definition get_all_jobs_with_skills :: "skills_dict \<Rightarrow> error + AllJobsResponse" where
  "get_all_jobs_with_skills job_skills =
     (case categories_loop job_skills category_mapping categories_init of
        Inl e \<Rightarrow> Inl e
      | Inr cats \<Rightarrow> Inr \<lparr>categories = cats, total_positions = length job_skills\<rparr>)"

text \<open>The number of positions held by the categories object of a response.\<close>

definition positions_in_body :: "categories_dict \<Rightarrow> nat" where
  "positions_in_body cats = sum_list (map (\<lambda>(category, inner). length inner) cats)"

text \<open>
  The entries one category receives from its list of positions: the positions of the
  list that are catalog keys, in list order, each with its catalog value. The loops are
  proved below to build exactly this under every category.
\<close>

definition included :: "skills_dict \<Rightarrow> string list \<Rightarrow> skills_dict" where
  "included job_skills positions =
     List.map_filter (\<lambda>pos. map_option (Pair pos) (map_of job_skills pos)) positions"

section \<open>Theorems: access gate\<close>

lemma strip_eq_Nil_iff: "strip s = [] \<longleftrightarrow> (\<forall>c \<in> set s. isspace c)"
proof
  assume "strip s = []"
  then have a: "\<forall>x \<in> set (dropWhile isspace s). isspace x"
    by (simp add: strip_def lstrip_def rstrip_def)
  have "dropWhile isspace s = []"
  proof (rule ccontr)
    assume ne: "dropWhile isspace s \<noteq> []"
    then have "\<not> isspace (hd (dropWhile isspace s))"
      by (rule hd_dropWhile)
    moreover have "hd (dropWhile isspace s) \<in> set (dropWhile isspace s)"
      using ne by simp
    ultimately show False
      using a by blast
  qed
  then show "\<forall>c \<in> set s. isspace c"
    by simp
next
  assume "\<forall>c \<in> set s. isspace c"
  then show "strip s = []"
    by (auto simp: strip_def lstrip_def rstrip_def dest: set_dropWhileD)
qed

lemma load_api_keys_no_empty_key: "load_api_keys env = Inr keys \<Longrightarrow> [] \<notin> keys"
  by (auto simp: load_api_keys_def split: option.splits if_splits)

text \<open>
  C1, as the claim states it, fails when the header is absent: the header dependency
  rejects the request itself, with its own error, and the fixed 401 message of
  \<open>verify_api_key\<close> is never produced for it.
\<close>

theorem authenticate_missing_header_counterexample:
  "authenticate {''sk_abc''} None \<noteq> Inl (HTTPException 401 unauthorized_detail)
   \<and> authenticate {''sk_abc''} (Some ''sk_wrong'') = Inl (HTTPException 401 unauthorized_detail)
   \<and> authenticate {''sk_abc''} None \<noteq> authenticate {''sk_abc''} (Some ''sk_wrong'')"
  by (simp add: authenticate_def api_key_header_def verify_api_key_def)

text \<open>
  C1 (amended): authentication succeeds if and only if the presented credential is a
  non-empty string that is a member of the valid-credential set (exact string equality);
  a presented non-empty credential that is not in the set is answered with status 401
  and the one fixed detail message; an absent or empty header is rejected by the header
  dependency before the membership check, with the framework's own error.
\<close>

theorem authenticate_outcomes:
  "(authenticate V h = Inr k \<longleftrightarrow> h = Some k \<and> k \<noteq> [] \<and> k \<in> V)
   \<and> (\<forall>c. h = Some c \<and> c \<noteq> [] \<and> c \<notin> V \<longrightarrow>
         authenticate V h = Inl (HTTPException 401 unauthorized_detail))
   \<and> (h = None \<or> h = Some [] \<longrightarrow> authenticate V h = Inl NotAuthenticated)"
  by (auto simp: authenticate_def api_key_header_def verify_api_key_def
           split: option.splits if_splits)

theorem authenticate_outcomes_witness:
  "authenticate {''sk_abc''} (Some ''sk_abc'') = Inr ''sk_abc''
   \<and> authenticate {''sk_abc''} (Some ''SK_ABC'') = Inl (HTTPException 401 unauthorized_detail)
   \<and> authenticate {''sk_abc''} (Some ''sk_wrong'') = Inl (HTTPException 401 unauthorized_detail)
   \<and> authenticate {''sk_abc''} None = Inl NotAuthenticated
   \<and> authenticate {''sk_abc''} (Some []) = Inl NotAuthenticated"
  using authenticate_outcomes [of "{''sk_abc''}" "Some ''sk_abc''" "''sk_abc''"]
        authenticate_outcomes [of "{''sk_abc''}" "Some ''SK_ABC''" "''SK_ABC''"]
        authenticate_outcomes [of "{''sk_abc''}" "Some ''sk_wrong''" "''sk_wrong''"]
        authenticate_outcomes [of "{''sk_abc''}" None "[]"]
        authenticate_outcomes [of "{''sk_abc''}" "Some []" "[]"]
  by simp

text \<open>
  C2, as the claim states it, fails for a variable that is set but holds no key: the
  value \<open>,\<close> passes the guard, yields zero keys, and the module loads.
\<close>

theorem load_api_keys_zero_keys_counterexample:
  "set (map strip (filter (\<lambda>key. strip key \<noteq> []) (split_comma '',''))) = {}
   \<and> load_api_keys (Some '','') = Inr {}
   \<and> \<not> (\<exists>e. load_api_keys (Some '','') = Inl e)"
  by (simp add: load_api_keys_def strip_def lstrip_def rstrip_def)

text \<open>
  C2 (amended): start-up fails exactly when the credential variable is absent or is the
  empty string, and the failure is the \<open>ValueError\<close> with the message that the variable is
  not set. A non-empty variable is split on commas, trimmed and stripped of empty segments
  into a set that never holds the empty string; when that set is empty the module still
  loads.
\<close>

theorem load_api_keys_fails_iff:
  "((\<exists>e. load_api_keys env = Inl e) \<longleftrightarrow> env = None \<or> env = Some [])
   \<and> (\<forall>e. load_api_keys env = Inl e \<longrightarrow>
         e = ValueError ''API_KEYS environment variable is not set. Please configure it in your .env file or environment.'')
   \<and> (\<forall>s. env = Some s \<and> s \<noteq> [] \<longrightarrow>
         load_api_keys env =
           Inr {strip key | key. key \<in> set (split_comma s) \<and> strip key \<noteq> []})"
  by (auto simp: load_api_keys_def split: option.splits if_splits)

theorem load_api_keys_fails_iff_witness:
  "load_api_keys None = Inl (ValueError
      ''API_KEYS environment variable is not set. Please configure it in your .env file or environment.'')
   \<and> load_api_keys (Some []) = Inl (ValueError
      ''API_KEYS environment variable is not set. Please configure it in your .env file or environment.'')
   \<and> load_api_keys (Some ''sk_a, sk_b,,sk_a'') = Inr {''sk_a'', ''sk_b''}
   \<and> load_api_keys (Some '' , '') = Inr {}
   \<and> load_api_keys (Some [CHR 0x85]) = Inr {}"
proof -
  have c: "\<And>xs. {strip key | key. key \<in> set xs \<and> strip key \<noteq> []}
             = set (map strip (filter (\<lambda>key. strip key \<noteq> []) xs))"
    by auto
  have a: "{strip key | key. key \<in> set (split_comma ''sk_a, sk_b,,sk_a'') \<and> strip key \<noteq> []}
           = {''sk_a'', ''sk_b''}"
    unfolding c by (auto simp: strip_def lstrip_def rstrip_def isspace_def)
  have b: "{strip key | key. key \<in> set (split_comma '' , '') \<and> strip key \<noteq> []} = {}"
    unfolding c by (simp add: strip_def lstrip_def rstrip_def isspace_def)
  have d: "{strip key | key. key \<in> set (split_comma [CHR 0x85]) \<and> strip key \<noteq> []} = {}"
    unfolding c by (simp add: strip_def lstrip_def rstrip_def isspace_def)
  have n: "\<exists>e. load_api_keys None = Inl e"
    using load_api_keys_fails_iff [of None] by blast
  have n': "\<exists>e. load_api_keys (Some []) = Inl e"
    using load_api_keys_fails_iff [of "Some []"] by blast
  have 1: "load_api_keys None = Inl (ValueError
      ''API_KEYS environment variable is not set. Please configure it in your .env file or environment.'')"
    using n load_api_keys_fails_iff [of None] by blast
  have 2: "load_api_keys (Some []) = Inl (ValueError
      ''API_KEYS environment variable is not set. Please configure it in your .env file or environment.'')"
    using n' load_api_keys_fails_iff [of "Some []"] by blast
  have 3: "load_api_keys (Some ''sk_a, sk_b,,sk_a'') = Inr {''sk_a'', ''sk_b''}"
    using load_api_keys_fails_iff [of "Some ''sk_a, sk_b,,sk_a''"] a by simp
  have 4: "load_api_keys (Some '' , '') = Inr {}"
    using load_api_keys_fails_iff [of "Some '' , ''"] b by simp
  have 5: "load_api_keys (Some [CHR 0x85]) = Inr {}"
    using load_api_keys_fails_iff [of "Some [CHR 0x85]"] d by simp
  from 1 2 3 4 5 show ?thesis by blast
qed

section \<open>Theorems: position resolver\<close>

lemma startswith_prefix: "startswith b a \<longleftrightarrow> prefix a b"
  by (induction b a rule: startswith.induct) auto

lemma str_in_sublist: "str_in a b \<longleftrightarrow> sublist a b"
  by (induction b) (auto simp: startswith_prefix sublist_Cons_right)

lemma str_in_refl: "str_in a a"
  by (simp add: str_in_sublist)

lemma partial_match_None_iff:
  "partial_match n items = None \<longleftrightarrow> (\<forall>(key, sk) \<in> set items. \<not> str_in n key \<and> \<not> str_in key n)"
  by (induction items) (auto split: if_splits)

lemma partial_match_first:
  "\<forall>(k, s) \<in> set pre. \<not> str_in n k \<and> \<not> str_in k n \<Longrightarrow> str_in n key \<or> str_in key n \<Longrightarrow>
   partial_match n (pre @ (key, sk) # post) = Some sk"
  by (induction pre) auto

lemma partial_match_member:
  "(key, sk) \<in> set items \<Longrightarrow> str_in n key \<or> str_in key n \<Longrightarrow> \<exists>sk'. partial_match n items = Some sk'"
  using partial_match_None_iff [of n items] by (cases "partial_match n items") auto

lemma get_skills_succeeds:
  assumes "(key, sk) \<in> set job_skills" "str_in (strip (lower pos)) key \<or> str_in key (strip (lower pos))"
  shows "\<exists>sk'. get_skills_for_position job_skills pos =
           Inr \<lparr>position = pos, skills = sk', skills_count = length sk'\<rparr>"
proof (cases "map_of job_skills (strip (lower pos))")
  case None
  from partial_match_member [OF assms] obtain sk' where
    "partial_match (strip (lower pos)) job_skills = Some sk'" by blast
  with None show ?thesis by (simp add: get_skills_for_position_def)
next
  case (Some a)
  then show ?thesis by (simp add: get_skills_for_position_def)
qed

text \<open>
  C3: when the lowercased, trimmed input is a key of the skills catalog, the resolver
  returns that key's entry at once, whatever the other keys are (the exact match comes
  before the substring fallback): the skill list is the entry's, \<open>skills_count\<close> is its
  length, and the position label is the caller's raw input, not the normalized key.
\<close>

theorem exact_match_returns_entry:
  assumes "distinct (map fst job_skills)"
    and "(key, sk) \<in> set job_skills"
    and "strip (lower pos) = key"
  shows "get_skills_for_position job_skills pos =
           Inr \<lparr>position = pos, skills = sk, skills_count = length sk\<rparr>"
proof -
  have "map_of job_skills (strip (lower pos)) = Some sk"
    using assms by simp
  then show ?thesis
    by (simp add: get_skills_for_position_def)
qed

theorem exact_match_returns_entry_witness:
  "distinct (map fst [(''software developer intern'', [''Git'']), (''software developer'', [''Python'', ''SQL''])])
   \<and> strip (lower ''Software Developer'') = ''software developer''
   \<and> get_skills_for_position
        [(''software developer intern'', [''Git'']), (''software developer'', [''Python'', ''SQL''])]
        ''Software Developer''
      = Inr \<lparr>position = ''Software Developer'', skills = [''Python'', ''SQL''], skills_count = 2\<rparr>
   \<and> strip (lower [CHR 0xA0, CHR ''C'', CHR ''A'', CHR ''F'', CHR 0xC9])
        = [CHR ''c'', CHR ''a'', CHR ''f'', CHR 0xE9]
   \<and> get_skills_for_position
        [(''caf'', [''Tea'']), ([CHR ''c'', CHR ''a'', CHR ''f'', CHR 0xE9], [''Espresso''])]
        [CHR 0xA0, CHR ''C'', CHR ''A'', CHR ''F'', CHR 0xC9]
      = Inr \<lparr>position = [CHR 0xA0, CHR ''C'', CHR ''A'', CHR ''F'', CHR 0xC9],
             skills = [''Espresso''], skills_count = 1\<rparr>"
proof -
  have d: "distinct (map fst [(''software developer intern'', [''Git'']), (''software developer'', [''Python'', ''SQL''])])"
    by simp
  have n: "strip (lower ''Software Developer'') = ''software developer''"
    by code_simp
  have m: "(''software developer'', [''Python'', ''SQL'']) \<in>
      set [(''software developer intern'', [''Git'']), (''software developer'', [''Python'', ''SQL''])]"
    by simp
  have d2: "distinct (map fst [(''caf'', [''Tea'']), ([CHR ''c'', CHR ''a'', CHR ''f'', CHR 0xE9], [''Espresso''])])"
    by simp
  have n2: "strip (lower [CHR 0xA0, CHR ''C'', CHR ''A'', CHR ''F'', CHR 0xC9])
        = [CHR ''c'', CHR ''a'', CHR ''f'', CHR 0xE9]"
    by code_simp
  have m2: "([CHR ''c'', CHR ''a'', CHR ''f'', CHR 0xE9], [''Espresso'']) \<in>
      set [(''caf'', [''Tea'']), ([CHR ''c'', CHR ''a'', CHR ''f'', CHR 0xE9], [''Espresso''])]"
    by simp
  show ?thesis
    using exact_match_returns_entry [OF d m n] exact_match_returns_entry [OF d2 m2 n2] d n n2
    by simp
qed

text \<open>
  C4: when the normalized input is no catalog key, the resolver walks the catalog in
  definition order and returns the first entry whose key contains the normalized input or
  is contained in it; entries before it that match in neither direction are passed over,
  entries after it are never looked at. In particular \<open>dev\<close> resolves against any catalog
  with the key \<open>developer\<close>, and \<open>senior software developer\<close> against any catalog with the
  key \<open>software developer\<close>.
\<close>

theorem fallback_first_match:
  "(strip (lower pos) \<notin> fst ` set job_skills
      \<and> job_skills = pre @ (key, sk) # post
      \<and> (\<forall>(k, s) \<in> set pre. \<not> str_in (strip (lower pos)) k \<and> \<not> str_in k (strip (lower pos)))
      \<and> (str_in (strip (lower pos)) key \<or> str_in key (strip (lower pos)))
    \<longrightarrow> get_skills_for_position job_skills pos =
          Inr \<lparr>position = pos, skills = sk, skills_count = length sk\<rparr>)
   \<and> ((''developer'', sk1) \<in> set catalog1
    \<longrightarrow> (\<exists>sk'. get_skills_for_position catalog1 ''dev'' =
          Inr \<lparr>position = ''dev'', skills = sk', skills_count = length sk'\<rparr>))
   \<and> ((''software developer'', sk2) \<in> set catalog2
    \<longrightarrow> (\<exists>sk'. get_skills_for_position catalog2 ''senior software developer'' =
          Inr \<lparr>position = ''senior software developer'', skills = sk', skills_count = length sk'\<rparr>))"
proof (intro conjI impI)
  assume a: "strip (lower pos) \<notin> fst ` set job_skills
      \<and> job_skills = pre @ (key, sk) # post
      \<and> (\<forall>(k, s) \<in> set pre. \<not> str_in (strip (lower pos)) k \<and> \<not> str_in k (strip (lower pos)))
      \<and> (str_in (strip (lower pos)) key \<or> str_in key (strip (lower pos)))"
  then have "strip (lower pos) \<notin> fst ` set job_skills"
    by (rule conjunct1)
  then have "map_of job_skills (strip (lower pos)) = None"
    by (simp add: map_of_eq_None_iff)
  moreover have "partial_match (strip (lower pos)) job_skills = Some sk"
    using a partial_match_first [of pre "strip (lower pos)" key sk post] by simp
  ultimately show "get_skills_for_position job_skills pos =
          Inr \<lparr>position = pos, skills = sk, skills_count = length sk\<rparr>"
    by (simp add: get_skills_for_position_def)
next
  assume a: "(''developer'', sk1) \<in> set catalog1"
  have n: "strip (lower ''dev'') = ''dev''" by code_simp
  have "str_in (strip (lower ''dev'')) ''developer''" unfolding n by simp
  with a show "\<exists>sk'. get_skills_for_position catalog1 ''dev'' =
          Inr \<lparr>position = ''dev'', skills = sk', skills_count = length sk'\<rparr>"
    using get_skills_succeeds [of "''developer''" sk1 catalog1 "''dev''"] by blast
next
  assume a: "(''software developer'', sk2) \<in> set catalog2"
  have n: "strip (lower ''senior software developer'') = ''senior software developer''" by code_simp
  have "str_in ''software developer'' (strip (lower ''senior software developer''))" unfolding n by simp
  with a show "\<exists>sk'. get_skills_for_position catalog2 ''senior software developer'' =
          Inr \<lparr>position = ''senior software developer'', skills = sk', skills_count = length sk'\<rparr>"
    using get_skills_succeeds [of "''software developer''" sk2 catalog2 "''senior software developer''"] by blast
qed

theorem fallback_first_match_witness:
  "strip (lower ''Dev'') \<notin> fst ` set [(''data analyst'', [''Excel'']), (''web developer'', [''HTML'']),
        (''software developer'', [''Python''])]
   \<and> \<not> str_in (strip (lower ''Dev'')) ''data analyst'' \<and> \<not> str_in ''data analyst'' (strip (lower ''Dev''))
   \<and> str_in (strip (lower ''Dev'')) ''web developer''
   \<and> str_in (strip (lower ''Dev'')) ''software developer''
   \<and> get_skills_for_position
        [(''data analyst'', [''Excel'']), (''web developer'', [''HTML'']),
         (''software developer'', [''Python''])] ''Dev''
      = Inr \<lparr>position = ''Dev'', skills = [''HTML''], skills_count = 1\<rparr>
   \<and> (\<exists>sk'. get_skills_for_position [(''developer'', [''Git''])] ''dev'' =
          Inr \<lparr>position = ''dev'', skills = sk', skills_count = length sk'\<rparr>)
   \<and> (\<exists>sk'. get_skills_for_position [(''software developer'', [''Python'', ''SQL''])]
          ''senior software developer'' =
          Inr \<lparr>position = ''senior software developer'', skills = sk', skills_count = length sk'\<rparr>)
   \<and> strip (lower [CHR 0xA0, CHR 0xC9]) = [CHR 0xE9]
   \<and> get_skills_for_position
        [(''tea'', [''Leaf'']), ([CHR ''c'', CHR ''a'', CHR ''f'', CHR 0xE9], [''Espresso''])]
        [CHR 0xA0, CHR 0xC9]
      = Inr \<lparr>position = [CHR 0xA0, CHR 0xC9], skills = [''Espresso''], skills_count = 1\<rparr>"
proof -
  have n: "strip (lower ''Dev'') = ''dev''"
    by code_simp
  have n2: "strip (lower [CHR 0xA0, CHR 0xC9]) = [CHR 0xE9]"
    by code_simp
  have a: "strip (lower ''Dev'') \<notin> fst ` set [(''data analyst'', [''Excel'']), (''web developer'', [''HTML'']),
        (''software developer'', [''Python''])]
   \<and> \<not> str_in (strip (lower ''Dev'')) ''data analyst'' \<and> \<not> str_in ''data analyst'' (strip (lower ''Dev''))
   \<and> str_in (strip (lower ''Dev'')) ''web developer''
   \<and> str_in (strip (lower ''Dev'')) ''software developer''
   \<and> get_skills_for_position
        [(''data analyst'', [''Excel'']), (''web developer'', [''HTML'']),
         (''software developer'', [''Python''])] ''Dev''
      = Inr \<lparr>position = ''Dev'', skills = [''HTML''], skills_count = 1\<rparr>
   \<and> (\<exists>sk'. get_skills_for_position [(''developer'', [''Git''])] ''dev'' =
          Inr \<lparr>position = ''dev'', skills = sk', skills_count = length sk'\<rparr>)
   \<and> (\<exists>sk'. get_skills_for_position [(''software developer'', [''Python'', ''SQL''])]
          ''senior software developer'' =
          Inr \<lparr>position = ''senior software developer'', skills = sk', skills_count = length sk'\<rparr>)"
    using fallback_first_match [of "''Dev''"
        "[(''data analyst'', [''Excel'']), (''web developer'', [''HTML'']),
          (''software developer'', [''Python''])]"
        "[(''data analyst'', [''Excel''])]" "''web developer''" "[''HTML'']"
        "[(''software developer'', [''Python''])]"
        "[''Git'']" "[(''developer'', [''Git''])]"
        "[''Python'', ''SQL'']" "[(''software developer'', [''Python'', ''SQL''])]"]
    unfolding n by simp
  have b: "get_skills_for_position
        [(''tea'', [''Leaf'']), ([CHR ''c'', CHR ''a'', CHR ''f'', CHR 0xE9], [''Espresso''])]
        [CHR 0xA0, CHR 0xC9]
      = Inr \<lparr>position = [CHR 0xA0, CHR 0xC9], skills = [''Espresso''], skills_count = 1\<rparr>"
    using fallback_first_match [of "[CHR 0xA0, CHR 0xC9]"
        "[(''tea'', [''Leaf'']), ([CHR ''c'', CHR ''a'', CHR ''f'', CHR 0xE9], [''Espresso''])]"
        "[(''tea'', [''Leaf''])]" "[CHR ''c'', CHR ''a'', CHR ''f'', CHR 0xE9]" "[''Espresso'']"
        "[]" "[]" "[]" "[]" "[]"]
    unfolding n2 by simp
  from a b n2 show ?thesis
    by blast
qed

text \<open>
  C5: when the normalized input is no catalog key and matches no key by the substring
  rule in either direction, the resolver fails with status 404 and a detail that quotes
  the caller's input and names \<open>/api/positions\<close>; and this is the only way it fails.
\<close>

theorem no_match_not_found:
  "(strip (lower pos) \<notin> fst ` set job_skills
      \<and> (\<forall>(key, sk) \<in> set job_skills.
            \<not> str_in (strip (lower pos)) key \<and> \<not> str_in key (strip (lower pos)))
    \<longrightarrow> get_skills_for_position job_skills pos =
          Inl (HTTPException 404
            (''No skills found for position: '' @ pos @
             ''. Try /api/positions to see available positions.'')))
   \<and> (\<forall>e. get_skills_for_position job_skills pos = Inl e \<longrightarrow>
          e = HTTPException 404
            (''No skills found for position: '' @ pos @
             ''. Try /api/positions to see available positions.'')
          \<and> strip (lower pos) \<notin> fst ` set job_skills
          \<and> (\<forall>(key, sk) \<in> set job_skills.
                \<not> str_in (strip (lower pos)) key \<and> \<not> str_in key (strip (lower pos))))"
proof (intro conjI impI allI)
  assume a: "strip (lower pos) \<notin> fst ` set job_skills
      \<and> (\<forall>(key, sk) \<in> set job_skills.
            \<not> str_in (strip (lower pos)) key \<and> \<not> str_in key (strip (lower pos)))"
  then have "map_of job_skills (strip (lower pos)) = None"
    by (simp add: map_of_eq_None_iff)
  moreover have "partial_match (strip (lower pos)) job_skills = None"
    using a by (simp add: partial_match_None_iff)
  ultimately show "get_skills_for_position job_skills pos =
          Inl (HTTPException 404
            (''No skills found for position: '' @ pos @
             ''. Try /api/positions to see available positions.''))"
    by (simp add: get_skills_for_position_def not_found_detail_def)
next
  fix e
  assume f: "get_skills_for_position job_skills pos = Inl e"
  then have m: "map_of job_skills (strip (lower pos)) = None"
    by (auto simp: get_skills_for_position_def Let_def split: option.splits)
  with f have p: "partial_match (strip (lower pos)) job_skills = None"
    by (auto simp: get_skills_for_position_def Let_def split: option.splits)
  from f m p show "e = HTTPException 404
            (''No skills found for position: '' @ pos @
             ''. Try /api/positions to see available positions.'')"
    by (simp add: get_skills_for_position_def not_found_detail_def)
  from m show "strip (lower pos) \<notin> fst ` set job_skills"
    by (simp add: map_of_eq_None_iff)
  from p show "\<forall>(key, sk) \<in> set job_skills.
                \<not> str_in (strip (lower pos)) key \<and> \<not> str_in key (strip (lower pos))"
    by (simp add: partial_match_None_iff)
qed

theorem no_match_not_found_witness:
  "strip (lower ''Plumber'') \<notin> fst ` set [(''developer'', [''Git'']), (''data analyst'', [''Excel''])]
   \<and> \<not> str_in (strip (lower ''Plumber'')) ''developer'' \<and> \<not> str_in ''developer'' (strip (lower ''Plumber''))
   \<and> \<not> str_in (strip (lower ''Plumber'')) ''data analyst'' \<and> \<not> str_in ''data analyst'' (strip (lower ''Plumber''))
   \<and> get_skills_for_position [(''developer'', [''Git'']), (''data analyst'', [''Excel''])] ''Plumber''
      = Inl (HTTPException 404
         ''No skills found for position: Plumber. Try /api/positions to see available positions.'')
   \<and> strip (lower [CHR 0xC9, CHR 0x85]) = [CHR 0xE9]
   \<and> get_skills_for_position [(''developer'', [''Git'']), (''data analyst'', [''Excel''])]
        [CHR 0xC9, CHR 0x85]
      = Inl (HTTPException 404
         (''No skills found for position: '' @ [CHR 0xC9, CHR 0x85] @
             ''. Try /api/positions to see available positions.''))"
proof -
  have n: "strip (lower ''Plumber'') = ''plumber''"
    by code_simp
  have n2: "strip (lower [CHR 0xC9, CHR 0x85]) = [CHR 0xE9]"
    by code_simp
  have h: "strip (lower ''Plumber'') \<notin> fst ` set [(''developer'', [''Git'']), (''data analyst'', [''Excel''])]
      \<and> (\<forall>(key, sk) \<in> set [(''developer'', [''Git'']), (''data analyst'', [''Excel''])].
            \<not> str_in (strip (lower ''Plumber'')) key \<and> \<not> str_in key (strip (lower ''Plumber'')))"
    unfolding n by simp
  have r: "get_skills_for_position [(''developer'', [''Git'']), (''data analyst'', [''Excel''])] ''Plumber''
      = Inl (HTTPException 404
         (''No skills found for position: '' @ ''Plumber'' @
             ''. Try /api/positions to see available positions.''))"
    using no_match_not_found [of "''Plumber''" "[(''developer'', [''Git'']), (''data analyst'', [''Excel''])]"] h
    by blast
  have h2: "strip (lower [CHR 0xC9, CHR 0x85]) \<notin> fst ` set [(''developer'', [''Git'']), (''data analyst'', [''Excel''])]
      \<and> (\<forall>(key, sk) \<in> set [(''developer'', [''Git'']), (''data analyst'', [''Excel''])].
            \<not> str_in (strip (lower [CHR 0xC9, CHR 0x85])) key
            \<and> \<not> str_in key (strip (lower [CHR 0xC9, CHR 0x85])))"
    unfolding n2 by simp
  have r2: "get_skills_for_position [(''developer'', [''Git'']), (''data analyst'', [''Excel''])]
        [CHR 0xC9, CHR 0x85]
      = Inl (HTTPException 404
         (''No skills found for position: '' @ [CHR 0xC9, CHR 0x85] @
             ''. Try /api/positions to see available positions.''))"
    using no_match_not_found [of "[CHR 0xC9, CHR 0x85]"
        "[(''developer'', [''Git'']), (''data analyst'', [''Excel''])]"] h2
    by blast
  have s: "\<not> str_in ''plumber'' ''developer'' \<and> \<not> str_in ''developer'' ''plumber''
     \<and> \<not> str_in ''plumber'' ''data analyst'' \<and> \<not> str_in ''data analyst'' ''plumber''"
    by simp
  have 1: "strip (lower ''Plumber'') \<notin> fst ` set [(''developer'', [''Git'']), (''data analyst'', [''Excel''])]
   \<and> \<not> str_in (strip (lower ''Plumber'')) ''developer'' \<and> \<not> str_in ''developer'' (strip (lower ''Plumber''))
   \<and> \<not> str_in (strip (lower ''Plumber'')) ''data analyst'' \<and> \<not> str_in ''data analyst'' (strip (lower ''Plumber''))
   \<and> get_skills_for_position [(''developer'', [''Git'']), (''data analyst'', [''Excel''])] ''Plumber''
      = Inl (HTTPException 404
         ''No skills found for position: Plumber. Try /api/positions to see available positions.'')"
    using h r s unfolding n by simp
  from 1 n2 r2 show ?thesis
    by blast
qed

lemma str_in_Nil: "str_in [] b"
  by (cases b) simp_all

text \<open>
  C9: when the normalized input is the empty string and the catalog is not empty, the
  resolver never fails: the empty string is contained in every key, so the fallback, which
  runs when the empty string is not itself a key, returns the skills of the first catalog
  entry, with the raw input as the position label.
\<close>

theorem blank_position_first_entry:
  assumes "job_skills \<noteq> []" and "strip (lower pos) = []"
  shows "(\<exists>sk. get_skills_for_position job_skills pos =
             Inr \<lparr>position = pos, skills = sk, skills_count = length sk\<rparr>)
         \<and> (\<forall>e. get_skills_for_position job_skills pos \<noteq> Inl e)
         \<and> ([] \<notin> fst ` set job_skills \<longrightarrow>
              get_skills_for_position job_skills pos =
                Inr \<lparr>position = pos, skills = snd (hd job_skills),
                     skills_count = length (snd (hd job_skills))\<rparr>)"
proof -
  from assms(1) obtain key sk items where js: "job_skills = (key, sk) # items"
    by (cases job_skills) auto
  have pm: "partial_match [] job_skills = Some sk"
    by (simp add: js str_in_Nil)
  have 1: "\<exists>sk. get_skills_for_position job_skills pos =
             Inr \<lparr>position = pos, skills = sk, skills_count = length sk\<rparr>"
    using pm assms(2) by (cases "map_of job_skills []") (simp_all add: get_skills_for_position_def)
  have 2: "[] \<notin> fst ` set job_skills \<longrightarrow>
              get_skills_for_position job_skills pos =
                Inr \<lparr>position = pos, skills = snd (hd job_skills),
                     skills_count = length (snd (hd job_skills))\<rparr>"
  proof
    assume "[] \<notin> fst ` set job_skills"
    then have "map_of job_skills [] = None"
      by (simp add: map_of_eq_None_iff)
    with pm assms(2) show "get_skills_for_position job_skills pos =
                Inr \<lparr>position = pos, skills = snd (hd job_skills),
                     skills_count = length (snd (hd job_skills))\<rparr>"
      by (simp add: get_skills_for_position_def js)
  qed
  from 1 2 show ?thesis by auto
qed

theorem blank_position_first_entry_witness:
  "[(''developer'', [''Git'']), (''data analyst'', [''Excel''])] \<noteq> []
   \<and> strip (lower ''   '') = []
   \<and> get_skills_for_position [(''developer'', [''Git'']), (''data analyst'', [''Excel''])] ''   ''
      = Inr \<lparr>position = ''   '', skills = [''Git''], skills_count = 1\<rparr>
   \<and> strip (lower [CHR 0xA0, CHR 0x85]) = []
   \<and> get_skills_for_position [(''developer'', [''Git'']), (''data analyst'', [''Excel''])]
        [CHR 0xA0, CHR 0x85]
      = Inr \<lparr>position = [CHR 0xA0, CHR 0x85], skills = [''Git''], skills_count = 1\<rparr>"
proof -
  have ne: "[(''developer'', [''Git'']), (''data analyst'', [''Excel''])] \<noteq> []"
    by simp
  have n: "strip (lower ''   '') = []"
    by code_simp
  have n2: "strip (lower [CHR 0xA0, CHR 0x85]) = []"
    by code_simp
  show ?thesis
    using blank_position_first_entry [OF ne n] blank_position_first_entry [OF ne n2] n n2 by simp
qed

section \<open>Theorems: suggestion engine\<close>

text \<open>
  C6, as the claim states it, fails for an all-whitespace query: for a single space the
  handler returns the empty sequence, while the filter of the catalog keeps every name
  with a space in it.
\<close>

theorem suggestions_blank_query_counterexample:
  "suggestions (get_position_suggestions [''Software Developer'', ''Data Analyst''] '' '') = []
   \<and> filter_truncated [''Software Developer'', ''Data Analyst''] '' ''
       = [''Software Developer'', ''Data Analyst'']
   \<and> suggestions (get_position_suggestions [''Software Developer'', ''Data Analyst''] '' '')
       \<noteq> filter_truncated [''Software Developer'', ''Data Analyst''] '' ''"
proof -
  have s: "strip '' '' = []" by code_simp
  have l: "lower '' '' = '' ''" "lower ''Software Developer'' = ''software developer''"
    "lower ''Data Analyst'' = ''data analyst''"
    by code_simp+
  show ?thesis
    by (simp add: get_position_suggestions_def filter_truncated_def s l)
qed

text \<open>
  C6 (amended): for every query the handler returns at most 10 names of the catalog, each
  containing the query under case-insensitive comparison, in catalog definition order
  (a subsequence of the catalog), and echoes the query; when the query is not
  all-whitespace the result is exactly the order-preserving filter of the catalog
  truncated to its first 10 matches, and when it is all-whitespace the result is empty.
\<close>

theorem suggestions_properties:
  "length (suggestions (get_position_suggestions common_positions q)) \<le> 10
   \<and> (\<forall>p \<in> set (suggestions (get_position_suggestions common_positions q)).
         p \<in> set common_positions \<and> str_in (lower q) (lower p))
   \<and> subseq (suggestions (get_position_suggestions common_positions q)) common_positions
   \<and> (strip q \<noteq> [] \<longrightarrow>
         suggestions (get_position_suggestions common_positions q)
           = filter_truncated common_positions q)
   \<and> (strip q = [] \<longrightarrow> suggestions (get_position_suggestions common_positions q) = [])
   \<and> query (get_position_suggestions common_positions q) = q"
proof -
  have sub: "subseq (filter_truncated common_positions q) common_positions"
    unfolding filter_truncated_def
    by (meson subseq_order.order_trans subseq_filter_left prefix_imp_subseq take_is_prefix)
  have mem: "\<forall>p \<in> set (filter_truncated common_positions q).
         p \<in> set common_positions \<and> str_in (lower q) (lower p)"
    unfolding filter_truncated_def by (auto dest: in_set_takeD)
  have len: "length (filter_truncated common_positions q) \<le> 10"
    unfolding filter_truncated_def by simp
  have e: "suggestions (get_position_suggestions common_positions q)
      = (if strip q = [] then [] else filter_truncated common_positions q)"
    by (simp add: get_position_suggestions_def filter_truncated_def)
  have qq: "query (get_position_suggestions common_positions q) = q"
    by (simp add: get_position_suggestions_def)
  show ?thesis
    using sub mem len qq unfolding e by simp
qed

theorem suggestions_properties_witness:
  "strip ''DATA'' \<noteq> []
   \<and> suggestions (get_position_suggestions
        [''Software Developer'', ''Data Scientist'', ''Big Data Engineer''] ''DATA'')
      = [''Data Scientist'', ''Big Data Engineer'']
   \<and> str_in (lower ''DATA'') (lower ''Data Scientist'')
   \<and> str_in (lower ''DATA'') (lower ''Big Data Engineer'')
   \<and> strip ''  '' = []
   \<and> suggestions (get_position_suggestions
        [''Software Developer'', ''Data Scientist'', ''Big Data Engineer''] ''  '') = []
   \<and> strip [CHR 0xC9] \<noteq> []
   \<and> suggestions (get_position_suggestions
        [''Tea'', [CHR ''C'', CHR ''a'', CHR ''f'', CHR 0xE9]] [CHR 0xC9])
      = [[CHR ''C'', CHR ''a'', CHR ''f'', CHR 0xE9]]
   \<and> strip [CHR 0xA0] = []
   \<and> suggestions (get_position_suggestions [[CHR ''A'', CHR 0xA0, CHR ''B''], ''C''] [CHR 0xA0]) = []"
proof -
  have s: "strip ''DATA'' = ''DATA''" "strip ''  '' = []"
    by code_simp+
  have s2: "strip [CHR 0xC9] = [CHR 0xC9]" "strip [CHR 0xA0] = []"
    by code_simp+
  have l: "lower ''DATA'' = ''data''" "lower ''Software Developer'' = ''software developer''"
    "lower ''Data Scientist'' = ''data scientist''" "lower ''Big Data Engineer'' = ''big data engineer''"
    by code_simp+
  have l2: "lower [CHR 0xC9] = [CHR 0xE9]" "lower ''Tea'' = ''tea''"
    "lower [CHR ''C'', CHR ''a'', CHR ''f'', CHR 0xE9] = [CHR ''c'', CHR ''a'', CHR ''f'', CHR 0xE9]"
    by code_simp+
  have f: "filter_truncated [''Software Developer'', ''Data Scientist'', ''Big Data Engineer''] ''DATA''
      = [''Data Scientist'', ''Big Data Engineer'']"
    by (simp add: filter_truncated_def l)
  have f2: "filter_truncated [''Tea'', [CHR ''C'', CHR ''a'', CHR ''f'', CHR 0xE9]] [CHR 0xC9]
      = [[CHR ''C'', CHR ''a'', CHR ''f'', CHR 0xE9]]"
    by (simp add: filter_truncated_def l2)
  have a: "suggestions (get_position_suggestions
        [''Software Developer'', ''Data Scientist'', ''Big Data Engineer''] ''DATA'')
      = [''Data Scientist'', ''Big Data Engineer'']"
    using suggestions_properties [of "[''Software Developer'', ''Data Scientist'', ''Big Data Engineer'']" "''DATA''"]
    unfolding f s by simp
  have b: "suggestions (get_position_suggestions
        [''Software Developer'', ''Data Scientist'', ''Big Data Engineer''] ''  '') = []"
    using suggestions_properties [of "[''Software Developer'', ''Data Scientist'', ''Big Data Engineer'']" "''  ''"]
    unfolding s by simp
  have c: "suggestions (get_position_suggestions
        [''Tea'', [CHR ''C'', CHR ''a'', CHR ''f'', CHR 0xE9]] [CHR 0xC9])
      = [[CHR ''C'', CHR ''a'', CHR ''f'', CHR 0xE9]]"
    using suggestions_properties [of "[''Tea'', [CHR ''C'', CHR ''a'', CHR ''f'', CHR 0xE9]]" "[CHR 0xC9]"]
    unfolding f2 s2 by simp
  have d: "suggestions (get_position_suggestions [[CHR ''A'', CHR 0xA0, CHR ''B''], ''C''] [CHR 0xA0]) = []"
    using suggestions_properties [of "[[CHR ''A'', CHR 0xA0, CHR ''B''], ''C'']" "[CHR 0xA0]"]
    unfolding s2 by simp
  have 1: "strip ''DATA'' \<noteq> []
   \<and> str_in (lower ''DATA'') (lower ''Data Scientist'')
   \<and> str_in (lower ''DATA'') (lower ''Big Data Engineer'')
   \<and> strip ''  '' = [] \<and> strip [CHR 0xC9] \<noteq> [] \<and> strip [CHR 0xA0] = []"
    unfolding s s2 l by simp
  from 1 a b c d show ?thesis
    by blast
qed

text \<open>
  C7, as the claim states it, fails for the empty string: the route declares
  \<open>min_length=1\<close> for the query, so an empty query is answered with a validation error
  and not with an empty sequence.
\<close>

theorem suggestions_empty_query_counterexample:
  "suggestions_endpoint [''Software Developer''] [] = Inl RequestValidationError
   \<and> suggestions_endpoint [''Software Developer''] []
       \<noteq> Inr \<lparr>suggestions = [], query = []\<rparr>"
  by (simp add: suggestions_endpoint_def)

text \<open>
  C7 (amended): a query of at least one character, all of them whitespace, is answered
  successfully with the empty sequence and the query echoed. The handler body returns the
  empty sequence for the empty string too, but the route rejects the empty string before
  the handler runs.
\<close>

theorem blank_query_empty_suggestions:
  "(q \<noteq> [] \<and> (\<forall>c \<in> set q. isspace c) \<longrightarrow>
      strip q = []
      \<and> suggestions_endpoint common_positions q = Inr \<lparr>suggestions = [], query = q\<rparr>)
   \<and> get_position_suggestions common_positions [] = \<lparr>suggestions = [], query = []\<rparr>
   \<and> suggestions_endpoint common_positions [] = Inl RequestValidationError"
proof -
  have "strip q = []" if "\<forall>c \<in> set q. isspace c"
    using that by (simp only: strip_eq_Nil_iff)
  moreover have "strip [] = []"
    by (simp add: strip_def lstrip_def rstrip_def)
  ultimately show ?thesis
    by (auto simp: suggestions_endpoint_def get_position_suggestions_def)
qed

theorem blank_query_empty_suggestions_witness:
  "''   '' \<noteq> [] \<and> isspace (CHR '' '')
   \<and> suggestions_endpoint [''Software Developer'', ''Data Analyst''] ''   ''
      = Inr \<lparr>suggestions = [], query = ''   ''\<rparr>
   \<and> [CHR 0xA0, CHR 0x85] \<noteq> [] \<and> isspace (CHR 0xA0) \<and> isspace (CHR 0x85)
   \<and> suggestions_endpoint [[CHR ''A'', CHR 0xA0, CHR ''B''], ''C''] [CHR 0xA0, CHR 0x85]
      = Inr \<lparr>suggestions = [], query = [CHR 0xA0, CHR 0x85]\<rparr>"
proof -
  have s: "isspace (CHR '' '')" "isspace (CHR 0xA0)" "isspace (CHR 0x85)"
    by (simp_all add: isspace_def)
  show ?thesis
    using blank_query_empty_suggestions [of "''   ''" "[''Software Developer'', ''Data Analyst'']"]
          blank_query_empty_suggestions [of "[CHR 0xA0, CHR 0x85]" "[[CHR ''A'', CHR 0xA0, CHR ''B''], ''C'']"]
          s
    by simp
qed

section \<open>Theorems: the combined view\<close>

lemma included_Nil: "included job_skills [] = []"
  by (simp add: included_def map_filter_simps)

lemma included_Cons:
  "included job_skills (pos # rest) =
     (case map_of job_skills pos of
        None \<Rightarrow> included job_skills rest
      | Some sk \<Rightarrow> (pos, sk) # included job_skills rest)"
  by (simp add: included_def map_filter_simps split: option.splits)

lemma keys_included:
  "fst ` set (included job_skills positions) = {pos \<in> set positions. pos \<in> fst ` set job_skills}"
proof (induction positions)
  case Nil
  show ?case by (simp add: included_Nil)
next
  case (Cons pos rest)
  show ?case
  proof (cases "map_of job_skills pos")
    case None
    then have "pos \<notin> fst ` set job_skills"
      by (simp add: map_of_eq_None_iff)
    with None Cons show ?thesis
      by (auto simp: included_Cons)
  next
    case (Some sk)
    then have "pos \<in> fst ` set job_skills"
      by (metis map_of_eq_None_iff option.distinct(1))
    with Some Cons show ?thesis
      by (auto simp: included_Cons)
  qed
qed

lemma map_of_included:
  "map_of (included job_skills positions) pos =
     (if pos \<in> set positions then map_of job_skills pos else None)"
  by (induction positions) (auto simp: included_Nil included_Cons split: option.splits)

lemma length_included:
  "length (included job_skills positions) =
     length (filter (\<lambda>pos. pos \<in> fst ` set job_skills) positions)"
proof (induction positions)
  case Nil
  show ?case by (simp add: included_Nil)
next
  case (Cons pos rest)
  show ?case
  proof (cases "map_of job_skills pos")
    case None
    then have "pos \<notin> fst ` set job_skills"
      by (simp add: map_of_eq_None_iff)
    with None Cons show ?thesis
      by (simp add: included_Cons)
  next
    case (Some sk)
    then have "pos \<in> fst ` set job_skills"
      by (metis map_of_eq_None_iff option.distinct(1))
    with Some Cons show ?thesis
      by (simp add: included_Cons)
  qed
qed

lemma update_fresh: "k \<notin> fst ` set al \<Longrightarrow> AList.update k v al = al @ [(k, v)]"
  by (induction al) auto

lemma update_middle:
  "c \<notin> fst ` set done \<Longrightarrow> AList.update c x (done @ (c, y) # after) = done @ (c, x) # after"
  by (induction "done") auto

lemma map_of_middle: "c \<notin> fst ` set done \<Longrightarrow> map_of (done @ (c, y) # after) c = Some y"
  by (induction "done") auto

lemma positions_loop_closed:
  assumes "c \<notin> fst ` set done" and "distinct positions"
    and "set positions \<inter> fst ` set acc = {}"
  shows "positions_loop job_skills c positions (done @ (c, acc) # after) =
           Inr (done @ (c, acc @ included job_skills positions) # after)"
  using assms(2,3)
proof (induction positions arbitrary: acc)
  case Nil
  show ?case by (simp add: included_Nil)
next
  case (Cons pos rest)
  show ?case
  proof (cases "map_of job_skills pos")
    case None
    then have "add_position job_skills c (done @ (c, acc) # after) pos = Inr (done @ (c, acc) # after)"
      by (simp add: add_position_def)
    moreover have "positions_loop job_skills c rest (done @ (c, acc) # after) =
           Inr (done @ (c, acc @ included job_skills rest) # after)"
      using Cons.prems by (intro Cons.IH) auto
    ultimately show ?thesis
      using None by (simp add: included_Cons)
  next
    case (Some sk)
    have fresh: "pos \<notin> fst ` set acc"
      using Cons.prems by auto
    have "add_position job_skills c (done @ (c, acc) # after) pos =
            Inr (done @ (c, acc @ [(pos, sk)]) # after)"
      using Some assms(1) fresh
      by (simp add: add_position_def map_of_middle update_middle update_fresh
            del: map_of_append)
    moreover have "positions_loop job_skills c rest (done @ (c, acc @ [(pos, sk)]) # after) =
           Inr (done @ (c, (acc @ [(pos, sk)]) @ included job_skills rest) # after)"
      using Cons.prems by (intro Cons.IH) auto
    ultimately show ?thesis
      using Some by (simp add: included_Cons)
  qed
qed

lemma categories_loop_closed:
  assumes "distinct (map fst cm)" and "\<forall>(c, ps) \<in> set cm. distinct ps"
    and "fst ` set done \<inter> fst ` set cm = {}"
  shows "categories_loop job_skills cm (done @ map (\<lambda>(c, ps). (c, [])) cm) =
           Inr (done @ map (\<lambda>(c, ps). (c, included job_skills ps)) cm)"
  using assms
proof (induction cm arbitrary: "done")
  case Nil
  show ?case by simp
next
  case (Cons entry rest)
  obtain c ps where entry: "entry = (c, ps)"
    by (cases entry)
  have c: "c \<notin> fst ` set done"
    using Cons.prems(3) entry by auto
  have ps: "distinct ps"
    using Cons.prems(2) entry by auto
  have step: "positions_loop job_skills c ps (done @ (c, []) # map (\<lambda>(c, ps). (c, [])) rest) =
      Inr (done @ (c, [] @ included job_skills ps) # map (\<lambda>(c, ps). (c, [])) rest)"
    using c ps by (intro positions_loop_closed) auto
  have "categories_loop job_skills rest
          ((done @ [(c, included job_skills ps)]) @ map (\<lambda>(c, ps). (c, [])) rest) =
        Inr ((done @ [(c, included job_skills ps)]) @
             map (\<lambda>(c, ps). (c, included job_skills ps)) rest)"
    using Cons.prems entry by (intro Cons.IH) auto
  with step show ?case
    by (simp add: entry)
qed

lemma category_mapping_distinct_keys: "distinct (map fst category_mapping)"
  by (simp add: category_mapping_def)

lemma category_mapping_distinct_positions: "distinct (concat (map snd category_mapping))"
  by (simp add: category_mapping_def)

lemma category_mapping_distinct_each: "\<forall>(c, ps) \<in> set category_mapping. distinct ps"
  by (simp add: category_mapping_def)

lemma categories_init_eq: "categories_init = map (\<lambda>(c, ps). (c, [])) category_mapping"
  by (simp add: categories_init_def category_mapping_def)

lemma get_all_jobs_closed:
  "get_all_jobs_with_skills job_skills =
     Inr \<lparr>categories = map (\<lambda>(c, ps). (c, included job_skills ps)) category_mapping,
          total_positions = length job_skills\<rparr>"
proof -
  have "categories_loop job_skills category_mapping
          ([] @ map (\<lambda>(c, ps). (c, [])) category_mapping) =
        Inr ([] @ map (\<lambda>(c, ps). (c, included job_skills ps)) category_mapping)"
    using category_mapping_distinct_keys category_mapping_distinct_each
    by (intro categories_loop_closed) auto
  then show ?thesis
    by (simp add: get_all_jobs_with_skills_def categories_init_eq)
qed

lemma map_of_closed_view:
  "map_of (map (\<lambda>(c, ps). (c, included job_skills ps)) cm) c =
     map_option (included job_skills) (map_of cm c)"
  by (induction cm) auto

text \<open>
  C8: the combined view always returns, with the categories of the mapping in their
  order; a position name appears under a category if and only if it is in that category's
  list of the category mapping and is a key of the skills catalog, and it carries the
  catalog's skills. So a position of a category list that is missing from the catalog is
  skipped and appears nowhere.
\<close>

theorem all_jobs_includes_iff:
  "\<exists>r. get_all_jobs_with_skills job_skills = Inr r
     \<and> map fst (categories r) = map fst category_mapping
     \<and> (\<forall>c p. (\<exists>inner. map_of (categories r) c = Some inner \<and> p \<in> fst ` set inner)
             \<longleftrightarrow> ((\<exists>ps. map_of category_mapping c = Some ps \<and> p \<in> set ps)
                  \<and> p \<in> fst ` set job_skills))
     \<and> (\<forall>c inner p sk. map_of (categories r) c = Some inner \<and> map_of inner p = Some sk
             \<longrightarrow> map_of job_skills p = Some sk)"
proof -
  let ?cats = "map (\<lambda>(c, ps). (c, included job_skills ps)) category_mapping"
  let ?r = "\<lparr>categories = ?cats, total_positions = length job_skills\<rparr>"
  have 1: "get_all_jobs_with_skills job_skills = Inr ?r"
    by (rule get_all_jobs_closed)
  have 2: "map fst ?cats = map fst category_mapping"
    by (induction category_mapping) auto
  have 3: "(\<exists>inner. map_of ?cats c = Some inner \<and> p \<in> fst ` set inner)
             \<longleftrightarrow> ((\<exists>ps. map_of category_mapping c = Some ps \<and> p \<in> set ps)
                  \<and> p \<in> fst ` set job_skills)" for c p
  proof (cases "map_of category_mapping c")
    case None
    then show ?thesis by (simp add: map_of_closed_view)
  next
    case (Some ps)
    have "p \<in> fst ` set (included job_skills ps) \<longleftrightarrow> p \<in> set ps \<and> p \<in> fst ` set job_skills"
      unfolding keys_included by simp
    with Some show ?thesis by (simp add: map_of_closed_view)
  qed
  have 4: "map_of ?cats c = Some inner \<and> map_of inner p = Some sk
             \<longrightarrow> map_of job_skills p = Some sk" for c inner p sk
    by (cases "map_of category_mapping c")
       (auto simp: map_of_closed_view map_of_included split: if_splits)
  show ?thesis
    apply (rule exI [of _ ?r])
    using 1 2 3 4 by simp
qed

theorem all_jobs_includes_iff_witness:
  "\<exists>r. get_all_jobs_with_skills [(''qa tester'', [''Selenium'']), (''astronaut'', [''Piloting''])] = Inr r
     \<and> (\<exists>inner. map_of (categories r) ''Quality Assurance'' = Some inner
            \<and> ''qa tester'' \<in> fst ` set inner)
     \<and> \<not> (\<exists>inner. map_of (categories r) ''Quality Assurance'' = Some inner
            \<and> ''qa engineer'' \<in> fst ` set inner)
     \<and> \<not> (\<exists>inner. map_of (categories r) ''Quality Assurance'' = Some inner
            \<and> ''astronaut'' \<in> fst ` set inner)"
proof -
  let ?js = "[(''qa tester'', [''Selenium'']), (''astronaut'', [''Piloting''])]"
  have m: "map_of category_mapping ''Quality Assurance'' =
             Some [''quality assurance engineer'', ''qa tester'', ''qa engineer'']"
    by (simp add: category_mapping_def)
  from all_jobs_includes_iff [of ?js] obtain r where
    r: "get_all_jobs_with_skills ?js = Inr r"
    and i: "\<And>c p. (\<exists>inner. map_of (categories r) c = Some inner \<and> p \<in> fst ` set inner)
             \<longleftrightarrow> ((\<exists>ps. map_of category_mapping c = Some ps \<and> p \<in> set ps)
                  \<and> p \<in> fst ` set ?js)"
    by blast
  have a: "\<exists>inner. map_of (categories r) ''Quality Assurance'' = Some inner
            \<and> ''qa tester'' \<in> fst ` set inner"
    unfolding i m by simp
  have b: "\<not> (\<exists>inner. map_of (categories r) ''Quality Assurance'' = Some inner
            \<and> ''qa engineer'' \<in> fst ` set inner)"
    unfolding i m by simp
  have c: "\<not> (\<exists>inner. map_of (categories r) ''Quality Assurance'' = Some inner
            \<and> ''astronaut'' \<in> fst ` set inner)"
    unfolding i m by simp
  from r a b c show ?thesis by blast
qed

lemma positions_in_body_closed:
  "positions_in_body (map (\<lambda>(c, ps). (c, included job_skills ps)) cm) =
     length (filter (\<lambda>pos. pos \<in> fst ` set job_skills) (concat (map snd cm)))"
  by (induction cm) (auto simp: positions_in_body_def length_included)

text \<open>
  C10: \<open>total_positions\<close> is the number of keys of the whole skills catalog, never less
  than the number of positions in the returned categories object; as soon as some catalog
  key is in no list of the category mapping it is strictly greater.
\<close>

theorem total_positions_counts_catalog:
  assumes "distinct (map fst job_skills)"
  shows "\<exists>r. get_all_jobs_with_skills job_skills = Inr r
     \<and> total_positions r = card (fst ` set job_skills)
     \<and> positions_in_body (categories r) \<le> total_positions r
     \<and> ((\<exists>key \<in> fst ` set job_skills. \<forall>(c, ps) \<in> set category_mapping. key \<notin> set ps)
           \<longrightarrow> positions_in_body (categories r) < total_positions r)"
proof -
  let ?K = "fst ` set job_skills"
  let ?all = "concat (map snd category_mapping)"
  let ?cats = "map (\<lambda>(c, ps). (c, included job_skills ps)) category_mapping"
  let ?r = "\<lparr>categories = ?cats, total_positions = length job_skills\<rparr>"
  have 1: "get_all_jobs_with_skills job_skills = Inr ?r"
    by (rule get_all_jobs_closed)
  have len: "length job_skills = card ?K"
    using distinct_card [OF assms] by simp
  have "distinct (filter (\<lambda>pos. pos \<in> ?K) ?all)"
    using category_mapping_distinct_positions by (rule distinct_filter)
  then have "card (set (filter (\<lambda>pos. pos \<in> ?K) ?all)) = length (filter (\<lambda>pos. pos \<in> ?K) ?all)"
    by (rule distinct_card)
  moreover have "set (filter (\<lambda>pos. pos \<in> ?K) ?all) = {pos \<in> set ?all. pos \<in> ?K}"
    by (rule set_filter)
  ultimately have body: "positions_in_body ?cats = card {pos \<in> set ?all. pos \<in> ?K}"
    by (simp only: positions_in_body_closed)
  have sub: "{pos \<in> set ?all. pos \<in> ?K} \<subseteq> ?K"
    by blast
  have le: "positions_in_body ?cats \<le> card ?K"
    unfolding body by (rule card_mono [OF _ sub]) simp
  have lt: "positions_in_body ?cats < card ?K"
    if "\<exists>key \<in> ?K. \<forall>(c, ps) \<in> set category_mapping. key \<notin> set ps"
  proof -
    from that obtain key where k: "key \<in> ?K" "\<forall>(c, ps) \<in> set category_mapping. key \<notin> set ps"
      by blast
    then have "key \<notin> set ?all"
      by auto
    with k(1) have "{pos \<in> set ?all. pos \<in> ?K} \<subset> ?K"
      by blast
    then show ?thesis
      unfolding body by (intro psubset_card_mono) simp_all
  qed
  show ?thesis
    apply (rule exI [of _ ?r])
    using 1 len le lt by simp
qed

theorem total_positions_counts_catalog_witness:
  "distinct (map fst [(''qa tester'', [''Selenium'']), (''astronaut'', [''Piloting''])])
   \<and> (\<exists>r. get_all_jobs_with_skills [(''qa tester'', [''Selenium'']), (''astronaut'', [''Piloting''])] = Inr r
        \<and> total_positions r = 2
        \<and> positions_in_body (categories r) < total_positions r)"
proof -
  let ?js = "[(''qa tester'', [''Selenium'']), (''astronaut'', [''Piloting''])]"
  have d: "distinct (map fst ?js)"
    by simp
  have k: "\<exists>key \<in> fst ` set ?js. \<forall>(c, ps) \<in> set category_mapping. key \<notin> set ps"
    by (simp add: category_mapping_def)
  have c: "card (fst ` set ?js) = 2"
    by simp
  from total_positions_counts_catalog [OF d] k c show ?thesis
    using d by auto
qed

end
